theory Spec2Isabelle
  imports Complex_Main
begin

section \<open>Values and exceptions of the Python runtime\<close>

text \<open>
  The scrapers work on the values that \<^verbatim>\<open>response.json()\<close> returns: \<^verbatim>\<open>None\<close>, booleans,
  integers, floats, strings, lists and dictionaries with string keys. A dictionary is kept
  as an association list that is read with \<open>map_of\<close>. A float is kept as the number it
  denotes; the non-finite floats are not represented.
\<close>

datatype json =
    JNull
  | JBool bool
  | JInt int
  | JFloat real
  | JStr string
  | JArr "json list"
  | JObj "(string \<times> json) list"

text \<open>
  The exceptions that the two scripts can meet. \<open>RequestException\<close> stands for
  \<^verbatim>\<open>requests.RequestException\<close> and all its subclasses (connection errors, timeouts,
  \<^verbatim>\<open>HTTPError\<close> from \<^verbatim>\<open>raise_for_status\<close>, exhausted retries); \<open>FuturesTimeout\<close> is the
  \<^verbatim>\<open>TimeoutError\<close> of \<^verbatim>\<open>concurrent.futures.as_completed\<close>; \<open>RecursionError\<close> is what
  \<^verbatim>\<open>response.json()\<close> raises on a body that is nested too deeply; \<open>UnicodeEncodeError\<close> is
  what writing to the report raises on text that UTF-8 cannot encode (a lone surrogate,
  which a JSON escape can produce). All of them derive from \<^verbatim>\<open>Exception\<close>.
\<close>

datatype py_error =
    KeyError
  | IndexError
  | TypeError
  | AttributeError
  | ValueError
  | RequestException
  | OSError
  | FuturesTimeout
  | RecursionError
  | UnicodeEncodeError

text \<open>Sequencing of two computations that may raise: the first exception wins.\<close>

definition and_then :: "py_error + 'a \<Rightarrow> ('a \<Rightarrow> py_error + 'b) \<Rightarrow> py_error + 'b" where
  "and_then m f = (case m of Inl e \<Rightarrow> Inl e | Inr x \<Rightarrow> f x)"

text \<open>Truth value of an object, as \<^verbatim>\<open>if x\<close> and \<^verbatim>\<open>not x\<close> test it.\<close>

fun truthy :: "json \<Rightarrow> bool" where
  "truthy JNull = False"
| "truthy (JBool b) = b"
| "truthy (JInt i) = (i \<noteq> 0)"
| "truthy (JFloat r) = (r \<noteq> 0)"
| "truthy (JStr s) = (s \<noteq> [])"
| "truthy (JArr xs) = (xs \<noteq> [])"
| "truthy (JObj kvs) = (kvs \<noteq> [])"

text \<open>\<^verbatim>\<open>v[k]\<close> for a string \<open>k\<close>: only a dictionary can be read that way.\<close>

fun subscript :: "json \<Rightarrow> string \<Rightarrow> py_error + json" where
  "subscript (JObj kvs) k = (case map_of kvs k of None \<Rightarrow> Inl KeyError | Some v \<Rightarrow> Inr v)"
| "subscript v k = Inl TypeError"

text \<open>
  \<^verbatim>\<open>v[0]\<close>: the first element of a list, the first character of a string; a dictionary
  parsed from JSON has no key \<open>0\<close>; anything else is not subscriptable.
\<close>

fun first_item :: "json \<Rightarrow> py_error + json" where
  "first_item (JArr []) = Inl IndexError"
| "first_item (JArr (x # xs)) = Inr x"
| "first_item (JStr []) = Inl IndexError"
| "first_item (JStr (c # cs)) = Inr (JStr [c])"
| "first_item (JObj kvs) = Inl KeyError"
| "first_item v = Inl TypeError"

text \<open>\<^verbatim>\<open>v.get(k, d)\<close>: a method of dictionaries only.\<close>

fun get_method :: "json \<Rightarrow> string \<Rightarrow> json \<Rightarrow> py_error + json" where
  "get_method (JObj kvs) k d = Inr (case map_of kvs k of None \<Rightarrow> d | Some v \<Rightarrow> v)"
| "get_method v k d = Inl AttributeError"

text \<open>
  The items that \<^verbatim>\<open>for p in v\<close> visits: the elements of a list, the characters of a string,
  the keys of a dictionary; other objects are not iterable.
\<close>

fun iterate :: "json \<Rightarrow> py_error + json list" where
  "iterate (JArr xs) = Inr xs"
| "iterate (JStr s) = Inr (map (\<lambda>c. JStr [c]) s)"
| "iterate (JObj kvs) = Inr (map (\<lambda>kv. JStr (fst kv)) kvs)"
| "iterate v = Inl TypeError"

text \<open>
  Keys of a Python dictionary. Lists and dictionaries are unhashable; \<^verbatim>\<open>True\<close>, \<open>1\<close> and
  \<open>1.0\<close> are one and the same key, since numbers are compared by value.
\<close>

datatype pykey = KNone | KNum real | KStr string

fun key_of :: "json \<Rightarrow> pykey option" where
  "key_of JNull = Some KNone"
| "key_of (JBool b) = Some (KNum (if b then 1 else 0))"
| "key_of (JInt i) = Some (KNum (of_int i))"
| "key_of (JFloat r) = Some (KNum r)"
| "key_of (JStr s) = Some (KStr s)"
| "key_of (JArr xs) = None"
| "key_of (JObj kvs) = None"

text \<open>
  The report file as the sequence of its \<^verbatim>\<open>f.write\<close> calls; each constructor is one of
  the templates, with the values substituted into it.
\<close>

datatype line =
    Name json
  | Price json
  | Url string
  | ImageSaved json
  | ImageFailed
  | ImageUrl json
  | NoImage
  | Separator

section \<open>The environment of a run\<close>

text \<open>
  Everything the scripts read from outside is a field of the environment:
  \<^item> \<open>str_of\<close>: the text that an f-string substitutes for a value that is not a string;
  \<^item> \<open>path_seps\<close>: the characters that separate path components for \<^verbatim>\<open>os.path\<close>
    (the slash, and on Windows the backslash too);
  \<^item> \<open>image_path\<close>: \<^verbatim>\<open>os.path.join(IMAGE_FOLDER, name)\<close>;
  \<^item> \<open>page_response\<close>: what the \<^verbatim>\<open>try\<close> block of the fetch loop yields for page \<open>n\<close>, the
    parsed body or the exception raised by \<^verbatim>\<open>session.get\<close>, \<^verbatim>\<open>raise_for_status\<close> or
    \<^verbatim>\<open>response.json\<close> (a body that is not JSON raises \<open>ValueError\<close>);
  \<^item> \<open>stream_image\<close>: the exception, if any, raised while the image at a URL is streamed
    into a file;
  \<^item> \<open>finishes\<close>: whether the \<open>i\<close>-th submitted download completes before the 60 second
    wait of \<^verbatim>\<open>as_completed\<close> expires, and \<open>finish_rank\<close>: the order of completion;
  \<^item> \<open>open_report\<close>: the exception, if any, raised by opening the report file, and
    \<open>write_error\<close>: the exception, if any, raised by writing a given line to it.
\<close>

record world =
  str_of :: "json \<Rightarrow> string"
  path_seps :: string
  image_path :: "string \<Rightarrow> string"
  page_response :: "nat \<Rightarrow> py_error + json"
  stream_image :: "string \<Rightarrow> string \<Rightarrow> py_error option"
  finishes :: "nat \<Rightarrow> bool"
  finish_rank :: "nat \<Rightarrow> nat"
  open_report :: "py_error option"
  write_error :: "line \<Rightarrow> py_error option"

text \<open>A value inside an f-string: a string stands for itself.\<close>

definition format_value :: "world \<Rightarrow> json \<Rightarrow> string" where
  "format_value w v = (case v of JStr s \<Rightarrow> s | _ \<Rightarrow> str_of w v)"

section \<open>Downloading one image (\<^verbatim>\<open>suta_scraper.download_image\<close>)\<close>

text \<open>
  \<^verbatim>\<open>str.rfind\<close> for one of several characters: the last position that holds one of them,
  or \<open>-1\<close>.
\<close>

definition rfind :: "string \<Rightarrow> string \<Rightarrow> int" where
  "rfind p cs =
     (if set p \<inter> set cs = {} then -1
      else int (length p) - 1 - int (length (takeWhile (\<lambda>c. c \<notin> set cs) (rev p))))"

text \<open>
  \<^verbatim>\<open>os.path.splitext\<close>: the extension starts at the last dot of the last path component,
  unless that component has nothing but dots before it.
\<close>

definition splitext :: "string \<Rightarrow> string \<Rightarrow> string \<times> string" where
  "splitext seps p =
     (let sepIndex = rfind p seps;
          dotIndex = rfind p ''.''
      in if dotIndex > sepIndex \<and>
            list_ex (\<lambda>c. c \<noteq> CHR ''.'') (take (nat (dotIndex - (sepIndex + 1))) (drop (nat (sepIndex + 1)) p))
         then (take (nat dotIndex) p, drop (nat dotIndex) p)
         else (p, []))"

text \<open>Line 78: \<^verbatim>\<open>os.path.splitext(url)[1].split('?')[0] or '.jpg'\<close>.\<close>

definition image_ext :: "string \<Rightarrow> string \<Rightarrow> string" where
  "image_ext seps url =
     (let ext = takeWhile (\<lambda>c. c \<noteq> CHR ''?'') (snd (splitext seps url))
      in if ext = [] then ''.jpg'' else ext)"

text \<open>
  The body of the \<^verbatim>\<open>try\<close> block. The argument is the \<open>image_src\<close> field of a product, any
  truthy value; \<^verbatim>\<open>os.path.splitext\<close> raises \<open>TypeError\<close> unless it is a string.
\<close>

definition download_attempt :: "world \<Rightarrow> json \<Rightarrow> string \<Rightarrow> py_error + string" where
  "download_attempt w url filename =
     (case url of
        JStr u \<Rightarrow>
          (let ext = image_ext (path_seps w) u;
               filename' = filename @ ext
           in case stream_image w u filename' of
                None \<Rightarrow> Inr filename'
              | Some e \<Rightarrow> Inl e)
      | _ \<Rightarrow> Inl TypeError)"

datatype log_record = Warning json py_error | Error json py_error

text \<open>
  The function with its two handlers. It returns the records it logged and the pair
  \<^verbatim>\<open>(filename, True)\<close> or \<^verbatim>\<open>(url, False)\<close>.
\<close>

definition download_image :: "world \<Rightarrow> json \<Rightarrow> string \<Rightarrow> log_record list \<times> (json \<times> bool)" where
  "download_image w url filename =
     (case download_attempt w url filename of
        Inr filename' \<Rightarrow> ([], (JStr filename', True))
      | Inl e \<Rightarrow>
          if e = RequestException then ([Warning url e], (url, False))
          else ([Error url e], (url, False)))"

section \<open>Fetching the catalogue (\<^verbatim>\<open>fetch_products\<close>)\<close>

text \<open>
  The dictionary that \<^verbatim>\<open>suta_scraper.fetch_products\<close> appends for one entry. The field
  \<open>image_src\<close> is the key \<^verbatim>\<open>image\<close>; it holds \<open>JNull\<close> for \<^verbatim>\<open>None\<close>.
\<close>

record product =
  pid :: json
  title :: json
  price :: json
  image_src :: json
  url :: string

text \<open>The dictionary of \<^verbatim>\<open>scraper.fetch_products\<close>, which keeps no identifier.\<close>

record listing =
  l_title :: json
  l_price :: json
  image_url :: json
  l_url :: string

text \<open>\<^verbatim>\<open>image_url = p["images"][0]["src"] if p["images"] else None\<close>\<close>

definition image_url_of :: "json \<Rightarrow> py_error + json" where
  "image_url_of p =
     and_then (subscript p ''images'') (\<lambda>images.
       if truthy images
       then and_then (subscript p ''images'') (\<lambda>images'.
            and_then (first_item images') (\<lambda>img. subscript img ''src''))
       else Inr JNull)"

text \<open>\<^verbatim>\<open>p["variants"][0]["price"]\<close>\<close>

definition first_price :: "json \<Rightarrow> py_error + json" where
  "first_price p =
     and_then (subscript p ''variants'') (\<lambda>variants.
     and_then (first_item variants) (\<lambda>variant. subscript variant ''price''))"

text \<open>
  One iteration of \<^verbatim>\<open>for p in products\<close> in \<^verbatim>\<open>suta_scraper.py\<close> (lines 60 to 67): the image
  URL first, then the items of the dictionary display from left to right.
\<close>

definition product_of_entry :: "world \<Rightarrow> json \<Rightarrow> py_error + product" where
  "product_of_entry w p =
     and_then (image_url_of p) (\<lambda>image_url.
     and_then (subscript p ''id'') (\<lambda>i.
     and_then (subscript p ''title'') (\<lambda>t.
     and_then (first_price p) (\<lambda>pr.
     and_then (subscript p ''handle'') (\<lambda>h.
       Inr \<lparr>pid = i, title = t, price = pr, image_src = image_url,
            url = ''https://suta.in/products/'' @ format_value w h\<rparr>)))))"

text \<open>The same iteration in \<^verbatim>\<open>scraper.py\<close> (lines 57 to 63).\<close>

definition listing_of_entry :: "world \<Rightarrow> json \<Rightarrow> py_error + listing" where
  "listing_of_entry w p =
     and_then (image_url_of p) (\<lambda>img.
     and_then (subscript p ''title'') (\<lambda>t.
     and_then (first_price p) (\<lambda>pr.
     and_then (subscript p ''handle'') (\<lambda>h.
       Inr \<lparr>l_title = t, l_price = pr, image_url = img,
            l_url = ''https://suta.in/products/'' @ format_value w h\<rparr>))))"

text \<open>The inner loop: each entry is appended, and the first exception ends the function.\<close>

fun append_products :: "(json \<Rightarrow> py_error + 'r) \<Rightarrow> json list \<Rightarrow> 'r list \<Rightarrow> py_error + 'r list" where
  "append_products conv [] all_products = Inr all_products"
| "append_products conv (p # ps) all_products =
     (case conv p of
        Inl e \<Rightarrow> Inl e
      | Inr r \<Rightarrow> append_products conv ps (all_products @ [r]))"

text \<open>
  The body of \<^verbatim>\<open>while True\<close> for one response: it leaves the loop (\<open>Break\<close>), lets an
  exception through (\<open>Raise\<close>), or goes on to the next page with a longer list (\<open>Next\<close>).
  The handler catches \<^verbatim>\<open>requests.RequestException\<close> and \<^verbatim>\<open>ValueError\<close> only.
\<close>

datatype 'r step = Break | Raise py_error | Next "'r list"

definition fetch_page :: "(json \<Rightarrow> py_error + 'r) \<Rightarrow> py_error + json \<Rightarrow> 'r list \<Rightarrow> 'r step" where
  "fetch_page conv response all_products =
     (case response of
        Inl e \<Rightarrow> if e = RequestException \<or> e = ValueError then Break else Raise e
      | Inr data \<Rightarrow>
          (case get_method data ''products'' (JArr []) of
             Inl e \<Rightarrow> Raise e
           | Inr products \<Rightarrow>
               if \<not> truthy products then Break
               else (case and_then (iterate products)
                            (\<lambda>ps. append_products conv ps all_products) of
                       Inl e \<Rightarrow> Raise e
                     | Inr all_products' \<Rightarrow> Next all_products')))"

text \<open>
  The loop. Beside the list it carries the page numbers requested so far; the result is
  that trace and either the list or the exception that left the function. A catalogue
  that never serves an empty page keeps the loop running: the value is \<open>None\<close>.
\<close>

partial_function (option) fetch_loop ::
  "(json \<Rightarrow> py_error + 'r) \<Rightarrow> world \<Rightarrow> nat \<Rightarrow> 'r list \<Rightarrow> nat list
     \<Rightarrow> (nat list \<times> (py_error + 'r list)) option" where
  "fetch_loop conv w page all_products requested =
     (case fetch_page conv (page_response w page) all_products of
        Break \<Rightarrow> Some (requested @ [page], Inr all_products)
      | Raise e \<Rightarrow> Some (requested @ [page], Inl e)
      | Next all_products' \<Rightarrow> fetch_loop conv w (page + 1) all_products' (requested @ [page]))"

definition fetch_products :: "world \<Rightarrow> (nat list \<times> (py_error + product list)) option" where
  "fetch_products w = fetch_loop (product_of_entry w) w 1 [] []"

definition scraper_fetch_products :: "world \<Rightarrow> (nat list \<times> (py_error + listing list)) option" where
  "scraper_fetch_products w = fetch_loop (listing_of_entry w) w 1 [] []"

section \<open>Downloading the images and writing the report (\<^verbatim>\<open>save_products\<close>)\<close>

text \<open>Lines 101 to 104: one task per product whose \<open>image_src\<close> is truthy.\<close>

fun image_tasks :: "world \<Rightarrow> product list \<Rightarrow> (json \<times> json \<times> string) list" where
  "image_tasks w [] = []"
| "image_tasks w (p # ps) =
     (if truthy (image_src p)
      then [(pid p, image_src p, image_path w (''product_'' @ format_value w (pid p)))]
      else []) @ image_tasks w ps"

text \<open>
  Lines 108 to 111: every task is submitted. A future is kept as what \<^verbatim>\<open>future.result()\<close>
  will give, the pair returned by \<open>download_image\<close>, together with its \<^verbatim>\<open>(pid, url)\<close>
  (here \<open>ident\<close> and \<open>src\<close>).
\<close>

definition submit_all ::
  "world \<Rightarrow> (json \<times> json \<times> string) list \<Rightarrow> ((py_error + json \<times> bool) \<times> json \<times> json) list" where
  "submit_all w tasks =
     map (\<lambda>(ident, src, path). (Inr (snd (download_image w src path)), (ident, src))) tasks"

text \<open>
  \<^verbatim>\<open>as_completed(futures, timeout=60)\<close>: the futures that finish in time, in the order in
  which they finish, and whether the iterator then raises \<open>FuturesTimeout\<close> because some
  future is still pending.
\<close>

definition as_completed :: "world \<Rightarrow> 'a list \<Rightarrow> 'a list \<times> bool" where
  "as_completed w futures =
     (map (\<lambda>i. futures ! i)
        (sort_key (finish_rank w) (filter (finishes w) [0..<length futures])),
      \<not> list_all (finishes w) [0..<length futures])"

text \<open>\<^verbatim>\<open>d[k] = v\<close> and \<^verbatim>\<open>d.get(k, v)\<close> on a dictionary: an unhashable key raises.\<close>

definition setitem :: "(pykey \<rightharpoonup> 'v) \<Rightarrow> json \<Rightarrow> 'v \<Rightarrow> py_error + (pykey \<rightharpoonup> 'v)" where
  "setitem d k v = (case key_of k of None \<Rightarrow> Inl TypeError | Some k' \<Rightarrow> Inr (d(k' \<mapsto> v)))"

definition get_default :: "(pykey \<rightharpoonup> 'v) \<Rightarrow> json \<Rightarrow> 'v \<Rightarrow> py_error + 'v" where
  "get_default d k v =
     (case key_of k of
        None \<Rightarrow> Inl TypeError
      | Some k' \<Rightarrow> Inr (case d k' of None \<Rightarrow> v | Some x \<Rightarrow> x))"

text \<open>
  Lines 113 to 120, the body of the \<^verbatim>\<open>for\<close> loop for each future that was yielded. An
  exception of the \<^verbatim>\<open>try\<close> block is caught and the pair \<^verbatim>\<open>(url, False)\<close> is stored instead;
  an exception of the handler itself leaves the function.
\<close>

fun collect ::
  "((py_error + json \<times> bool) \<times> json \<times> json) list \<Rightarrow> (pykey \<rightharpoonup> json \<times> bool)
     \<Rightarrow> py_error + (pykey \<rightharpoonup> json \<times> bool)" where
  "collect [] download_results = Inr download_results"
| "collect ((future, ident, src) # rest) download_results =
     (case and_then future
             (\<lambda>(result, success). setitem download_results ident (result, success)) of
        Inr download_results' \<Rightarrow> collect rest download_results'
      | Inl e \<Rightarrow>
          (case setitem download_results ident (src, False) of
             Inl e' \<Rightarrow> Inl e'
           | Inr download_results' \<Rightarrow> collect rest download_results'))"

text \<open>
  Lines 107 to 120 as a whole, the batch download stage (\<open>download_all\<close> in the
  specification): the outcome mapping, or the exception that leaves \<open>save_products\<close>.
\<close>

definition download_all ::
  "world \<Rightarrow> (json \<times> json \<times> string) list \<Rightarrow> py_error + (pykey \<rightharpoonup> json \<times> bool)" where
  "download_all w tasks =
     (case as_completed w (submit_all w tasks) of
        (yielded, timed_out) \<Rightarrow>
          and_then (collect yielded Map.empty)
            (\<lambda>download_results. if timed_out then Inl FuturesTimeout else Inr download_results))"

text \<open>
  Lines 124 to 138: the lines that the loop hands to \<^verbatim>\<open>f.write\<close>, in that order, or the
  exception of a lookup.
\<close>

fun write_products ::
  "(pykey \<rightharpoonup> json \<times> bool) \<Rightarrow> product list \<Rightarrow> line list \<Rightarrow> py_error + line list" where
  "write_products download_results [] f = Inr f"
| "write_products download_results (p # ps) f =
     (let f' = f @ [Name (title p), Price (price p), Url (url p)]
      in if truthy (image_src p)
         then (case get_default download_results (pid p) (JNull, False) of
                 Inl e \<Rightarrow> Inl e
               | Inr (img_result, success) \<Rightarrow>
                   write_products download_results ps
                     (f' @ [if success then ImageSaved img_result else ImageFailed, Separator]))
         else write_products download_results ps (f' @ [NoImage, Separator]))"

text \<open>
  \<^verbatim>\<open>f.write\<close> for a sequence of lines: the file takes them one by one, and the first write
  that fails ends the function with its exception.
\<close>

fun write_lines :: "world \<Rightarrow> line list \<Rightarrow> line list \<Rightarrow> py_error + line list" where
  "write_lines w [] f = Inr f"
| "write_lines w (l # ls) f =
     (case write_error w l of
        Some e \<Rightarrow> Inl e
      | None \<Rightarrow> write_lines w ls (f @ [l]))"

text \<open>
  The function as a whole: the downloads, then \<^verbatim>\<open>open\<close>, then the loop writing its lines.
  The lookups of the loop cannot raise once the download stage has returned (each
  identifier it reads is a key that was stored, see \<open>download_all_keys_hashable\<close>), so the
  first exception of the \<^verbatim>\<open>with\<close> block is that of \<^verbatim>\<open>open\<close> or of the first write that
  fails.
\<close>

definition save_products :: "world \<Rightarrow> product list \<Rightarrow> py_error + line list" where
  "save_products w products =
     and_then (download_all w (image_tasks w products))
       (\<lambda>download_results.
          case open_report w of
            Some e \<Rightarrow> Inl e
          | None \<Rightarrow>
              and_then (write_products download_results products [])
                (\<lambda>lines. write_lines w lines []))"

text \<open>
  \<^verbatim>\<open>scraper.save_products\<close> (lines 74 to 85) writes the image URL itself and downloads
  nothing: \<^verbatim>\<open>open\<close>, then five writes for each product.
\<close>

fun scraper_write_products :: "world \<Rightarrow> listing list \<Rightarrow> line list \<Rightarrow> py_error + line list" where
  "scraper_write_products w [] f = Inr f"
| "scraper_write_products w (p # ps) f =
     and_then
       (write_lines w
          [Name (l_title p), Price (l_price p), Url (l_url p),
           if truthy (image_url p) then ImageUrl (image_url p) else NoImage,
           Separator] f)
       (scraper_write_products w ps)"

definition scraper_save_products :: "world \<Rightarrow> listing list \<Rightarrow> py_error + line list" where
  "scraper_save_products w products =
     (case open_report w of
        Some e \<Rightarrow> Inl e
      | None \<Rightarrow> scraper_write_products w products [])"

text \<open>
  The two scripts from top to bottom: \<open>None\<close> when the fetch loop never ends, otherwise
  the report or the exception that ends the process.
\<close>

definition main :: "world \<Rightarrow> (py_error + line list) option" where
  "main w =
     (case fetch_products w of
        None \<Rightarrow> None
      | Some (requested, outcome) \<Rightarrow> Some (and_then outcome (save_products w)))"

definition scraper_main :: "world \<Rightarrow> (py_error + line list) option" where
  "scraper_main w =
     (case scraper_fetch_products w of
        None \<Rightarrow> None
      | Some (requested, outcome) \<Rightarrow>
          Some (and_then outcome (scraper_save_products w)))"

declare fetch_loop.simps [code]

section \<open>What the specification says about the report\<close>

text \<open>
  The image line of a product in the words of the specification: no image URL gives the
  first case; an image URL whose outcome in the mapping is a success gives the second
  case with the stored path; anything else gives the third case.
\<close>

definition image_case :: "(pykey \<rightharpoonup> json \<times> bool) \<Rightarrow> product \<Rightarrow> line" where
  "image_case download_results p =
     (if \<not> truthy (image_src p) then NoImage
      else (case Option.bind (key_of (pid p)) download_results of
              Some (path, True) \<Rightarrow> ImageSaved path
            | _ \<Rightarrow> ImageFailed))"

definition report_block :: "(pykey \<rightharpoonup> json \<times> bool) \<Rightarrow> product \<Rightarrow> line list" where
  "report_block download_results p =
     [Name (title p), Price (price p), Url (url p), image_case download_results p, Separator]"

text \<open>
  The entries of a page: the list under the key \<open>products\<close> of a response whose body is a
  JSON object.
\<close>

definition page_entries :: "py_error + json \<Rightarrow> json list option" where
  "page_entries response =
     (case response of
        Inr (JObj kvs) \<Rightarrow> (case map_of kvs ''products'' of Some (JArr ps) \<Rightarrow> Some ps | _ \<Rightarrow> None)
      | _ \<Rightarrow> None)"

section \<open>What the specification says about a record\<close>

text \<open>
  Readers that cannot fail: the value under a key of a dictionary and the first element
  of a list, \<open>JNull\<close> where there is none.
\<close>

definition value_at :: "json \<Rightarrow> string \<Rightarrow> json" where
  "value_at p k =
     (case p of
        JObj kvs \<Rightarrow> (case map_of kvs k of Some v \<Rightarrow> v | None \<Rightarrow> JNull)
      | _ \<Rightarrow> JNull)"

definition first_of :: "json \<Rightarrow> json" where
  "first_of v = (case v of JArr (x # xs) \<Rightarrow> x | _ \<Rightarrow> JNull)"

text \<open>
  The record of an entry in the words of the specification: title and price are taken
  from the source fields (the price from the first variant), the image URL is the source
  of the first image if there is an image and absent otherwise, and the canonical URL is
  the slug put into the fixed template.
\<close>

definition first_image_src :: "json \<Rightarrow> json" where
  "first_image_src p =
     (if truthy (value_at p ''images'') then value_at (first_of (value_at p ''images'')) ''src''
      else JNull)"

definition normalized_product :: "world \<Rightarrow> json \<Rightarrow> product" where
  "normalized_product w p =
     \<lparr>pid = value_at p ''id'', title = value_at p ''title'',
      price = value_at (first_of (value_at p ''variants'')) ''price'',
      image_src = first_image_src p,
      url = ''https://suta.in/products/'' @ format_value w (value_at p ''handle'')\<rparr>"

definition normalized_listing :: "world \<Rightarrow> json \<Rightarrow> listing" where
  "normalized_listing w p =
     \<lparr>l_title = value_at p ''title'',
      l_price = value_at (first_of (value_at p ''variants'')) ''price'',
      image_url = first_image_src p,
      l_url = ''https://suta.in/products/'' @ format_value w (value_at p ''handle'')\<rparr>"


section \<open>Entries and responses that the scripts can read\<close>

definition has_key :: "json \<Rightarrow> string \<Rightarrow> bool" where
  "has_key p k = (case p of JObj kvs \<Rightarrow> map_of kvs k \<noteq> None | _ \<Rightarrow> False)"

text \<open>
  A list whose first element is a dictionary with the key \<open>k\<close>: what \<^verbatim>\<open>v[0][k]\<close> needs.
\<close>

definition has_first :: "json \<Rightarrow> string \<Rightarrow> bool" where
  "has_first v k = (case v of JArr (JObj kvs # rest) \<Rightarrow> map_of kvs k \<noteq> None | _ \<Rightarrow> False)"

text \<open>
  An entry that offers what \<^verbatim>\<open>scraper.py\<close> reads from it: \<open>images\<close> falsy or with a first
  image that has a \<open>src\<close>, a \<open>title\<close>, a first variant with a \<open>price\<close>, and a \<open>handle\<close>.
  \<^verbatim>\<open>suta_scraper.py\<close> reads the \<open>id\<close> as well, and uses it as a dictionary key when the entry
  has an image.
\<close>

definition readable_listing :: "json \<Rightarrow> bool" where
  "readable_listing p \<longleftrightarrow>
     has_key p ''images'' \<and>
     (\<not> truthy (value_at p ''images'') \<or> has_first (value_at p ''images'') ''src'') \<and>
     has_key p ''title'' \<and>
     has_first (value_at p ''variants'') ''price'' \<and>
     has_key p ''handle''"

definition readable_product :: "json \<Rightarrow> bool" where
  "readable_product p \<longleftrightarrow> readable_listing p \<and> has_key p ''id''"




section \<open>Sample runs\<close>

text \<open>
  A catalogue entry with one image, an entry without image and without variant, and an
  environment in which every request succeeds, page 1 holds the first entry and page 2
  is empty.
\<close>

definition saree :: json where
  "saree = JObj [(''id'', JInt 1), (''title'', JStr ''Saree''), (''handle'', JStr ''saree''),
     (''images'', JArr [JObj [(''src'', JStr ''https://cdn.example.com/a/img.jpg?v=1.5'')]]),
     (''variants'', JArr [JObj [(''price'', JStr ''10.00'')]])]"

definition gift_box :: json where
  "gift_box = JObj [(''id'', JInt 2), (''title'', JStr ''Box''), (''handle'', JStr ''box''),
     (''images'', JArr []), (''variants'', JArr [])]"

definition scarf :: json where
  "scarf = JObj [(''id'', JInt 2), (''title'', JStr ''Scarf''), (''handle'', JStr ''scarf''),
     (''images'', JArr []), (''variants'', JArr [JObj [(''price'', JStr ''5.00'')]])]"

definition stole :: json where
  "stole = JObj [(''id'', JInt 3), (''title'', JStr ''Stole''), (''handle'', JStr ''stole''),
     (''images'', JArr [JObj [(''src'', JStr ''https://cdn.example.com/b/stole.png'')]]),
     (''variants'', JArr [JObj [(''price'', JStr ''7.50'')], JObj [(''price'', JStr ''8.00'')]])]"

definition kurta :: json where
  "kurta = JObj [(''id'', JInt 4), (''title'', JStr ''Kurta''), (''handle'', JStr ''kurta''),
     (''images'', JArr []), (''variants'', JArr [JObj [(''price'', JStr ''12.00'')]])]"

text \<open>\<^verbatim>\<open>str\<close> on the identifiers of the sample entries.\<close>

definition sample_str :: "json \<Rightarrow> string" where
  "sample_str v =
     (if v = JInt 1 then ''1'' else if v = JInt 2 then ''2''
      else if v = JInt 3 then ''3'' else if v = JInt 4 then ''4'' else ''None'')"

definition shop :: world where
  "shop = \<lparr>str_of = sample_str, path_seps = ''/'', image_path = (\<lambda>name. ''images/'' @ name),
     page_response = (\<lambda>n. if n = 1 then Inr (JObj [(''products'', JArr [saree])])
                          else Inr (JObj [(''products'', JArr [])])),
     stream_image = (\<lambda>u f. None), finishes = (\<lambda>i. True), finish_rank = (\<lambda>i. i),
     open_report = None, write_error = (\<lambda>l. None)\<rparr>"

text \<open>
  A catalogue of two pages with two entries each; the image of the stole cannot be
  downloaded.
\<close>

definition catalogue :: world where
  "catalogue = shop\<lparr>page_response :=
       (\<lambda>n. if n = 1 then Inr (JObj [(''products'', JArr [saree, scarf])])
            else if n = 2 then Inr (JObj [(''products'', JArr [stole, kurta])])
            else Inr (JObj [(''products'', JArr [])])),
     stream_image := (\<lambda>u f. if u = ''https://cdn.example.com/b/stole.png''
                            then Some RequestException else None)\<rparr>"

text \<open>
  The same catalogue with a third page that cannot be fetched; a shop whose only entry has
  no variant; a shop that answers with a JSON array; a shop whose body is nested too
  deeply for the parser.
\<close>

definition broken_catalogue :: world where
  "broken_catalogue = catalogue\<lparr>page_response :=
       (\<lambda>n. if n \<le> 2 then page_response catalogue n else Inl RequestException)\<rparr>"

definition gift_shop :: world where
  "gift_shop = shop\<lparr>page_response :=
       (\<lambda>n. if n = 1 then Inr (JObj [(''products'', JArr [gift_box])])
            else Inr (JObj [(''products'', JArr [])]))\<rparr>"

definition array_shop :: world where
  "array_shop = shop\<lparr>page_response := (\<lambda>n. Inr (JArr []))\<rparr>"

definition deep_shop :: world where
  "deep_shop = shop\<lparr>page_response := (\<lambda>n. Inl RecursionError)\<rparr>"

definition scarf_product :: product where
  "scarf_product = \<lparr>pid = JInt 2, title = JStr ''Scarf'', price = JStr ''5.00'',
     image_src = JNull, url = ''https://suta.in/products/scarf''\<rparr>"

definition stole_product :: product where
  "stole_product = \<lparr>pid = JInt 3, title = JStr ''Stole'', price = JStr ''7.50'',
     image_src = JStr ''https://cdn.example.com/b/stole.png'',
     url = ''https://suta.in/products/stole''\<rparr>"

definition kurta_product :: product where
  "kurta_product = \<lparr>pid = JInt 4, title = JStr ''Kurta'', price = JStr ''12.00'',
     image_src = JNull, url = ''https://suta.in/products/kurta''\<rparr>"

definition saree_product :: product where
  "saree_product = \<lparr>pid = JInt 1, title = JStr ''Saree'', price = JStr ''10.00'',
     image_src = JStr ''https://cdn.example.com/a/img.jpg?v=1.5'',
     url = ''https://suta.in/products/saree''\<rparr>"

definition saree_listing :: listing where
  "saree_listing = \<lparr>l_title = JStr ''Saree'', l_price = JStr ''10.00'',
     image_url = JStr ''https://cdn.example.com/a/img.jpg?v=1.5'',
     l_url = ''https://suta.in/products/saree''\<rparr>"

definition scarf_listing :: listing where
  "scarf_listing = \<lparr>l_title = JStr ''Scarf'', l_price = JStr ''5.00'', image_url = JNull,
     l_url = ''https://suta.in/products/scarf''\<rparr>"

definition stole_listing :: listing where
  "stole_listing = \<lparr>l_title = JStr ''Stole'', l_price = JStr ''7.50'',
     image_url = JStr ''https://cdn.example.com/b/stole.png'',
     l_url = ''https://suta.in/products/stole''\<rparr>"

definition kurta_listing :: listing where
  "kurta_listing = \<lparr>l_title = JStr ''Kurta'', l_price = JStr ''12.00'', image_url = JNull,
     l_url = ''https://suta.in/products/kurta''\<rparr>"

section \<open>Basic facts\<close>

lemma and_then_simps:
  "and_then (Inl e) f = Inl e" "and_then (Inr x) f = f x"
  by (simp_all add: and_then_def)

lemma write_products_acc:
  "\<forall>p\<in>set products. truthy (image_src p) \<longrightarrow> key_of (pid p) \<noteq> None \<Longrightarrow>
   write_products dr products f = Inr (f @ concat (map (report_block dr) products))"
proof (induction products arbitrary: f)
  case Nil
  then show ?case by simp
next
  case (Cons p ps)
  then have IH: "\<And>g. write_products dr ps g = Inr (g @ concat (map (report_block dr) ps))"
    by simp
  show ?case
  proof (cases "truthy (image_src p)")
    case False
    then have "report_block dr p = [Name (title p), Price (price p), Url (url p), NoImage, Separator]"
      by (simp add: report_block_def image_case_def)
    with False show ?thesis by (simp add: IH)
  next
    case True
    with Cons.prems obtain k where k: "key_of (pid p) = Some k" by auto
    have "get_default dr (pid p) (JNull, False) =
            Inr (case dr k of None \<Rightarrow> (JNull, False) | Some x \<Rightarrow> x)"
      by (simp add: get_default_def k)
    moreover have "report_block dr p =
       [Name (title p), Price (price p), Url (url p),
        (case (case dr k of None \<Rightarrow> (JNull, False) | Some x \<Rightarrow> x) of
           (img_result, success) \<Rightarrow> if success then ImageSaved img_result else ImageFailed),
        Separator]"
      using True k by (auto simp: report_block_def image_case_def split: option.splits bool.splits)
    ultimately show ?thesis using True
      by (simp add: IH split: prod.splits)
  qed
qed

section \<open>The download of one image\<close>

text \<open>The \<^verbatim>\<open>try\<close> block fails when the URL is no string or when streaming the image fails.\<close>

lemma download_attempt_fails_iff:
  "download_attempt w src filename = Inl e \<longleftrightarrow>
     (case src of
        JStr u \<Rightarrow> stream_image w u (filename @ image_ext (path_seps w) u) = Some e
      | _ \<Rightarrow> e = TypeError)"
  by (cases src) (auto simp: download_attempt_def Let_def split: option.splits)

text \<open>
  C5: when the download raises an exception, be it a \<open>RequestException\<close> or any other one,
  \<open>download_image\<close> returns the pair of the original URL and \<open>False\<close> and logs one record
  (a warning for a request failure, an error otherwise). The function has no other way
  out: both handlers return.
\<close>

theorem download_image_failure:
  assumes "download_attempt w src filename = Inl e"
  shows "download_image w src filename =
           ([if e = RequestException then Warning src e else Error src e], (src, False))"
  using assms by (simp add: download_image_def)

theorem download_image_failure_witness:
  "download_image (shop\<lparr>stream_image := (\<lambda>u f. Some RequestException)\<rparr>)
     (JStr ''https://cdn.example.com/missing.png'') ''images/product_7'' =
   ([Warning (JStr ''https://cdn.example.com/missing.png'') RequestException],
    (JStr ''https://cdn.example.com/missing.png'', False))"
  using download_image_failure [of "shop\<lparr>stream_image := (\<lambda>u f. Some RequestException)\<rparr>"
      "JStr ''https://cdn.example.com/missing.png''" "''images/product_7''" RequestException]
  by (simp add: download_attempt_def)

text \<open>
  C8: the extension is taken from the whole URL and cut at the first question mark only
  afterwards. For a URL whose query string holds a dot, the path ends in \<open>.jpg\<close> but the
  extension computed is the end of the query string, and the image is stored as
  \<open>product_1.5\<close>.
\<close>

theorem image_ext_from_query_string:
  "image_ext ''/'' ''https://cdn.example.com/a/img.jpg?v=1.5'' = ''.5'' \<and>
   image_ext [CHR 0x5C, CHR ''/''] ''https://cdn.example.com/a/img.jpg?v=1.5'' = ''.5'' \<and>
   download_image shop (JStr ''https://cdn.example.com/a/img.jpg?v=1.5'') ''images/product_1'' =
     ([], (JStr ''images/product_1.5'', True))"
  by (simp add: download_image_def download_attempt_def image_ext_def splitext_def rfind_def
        shop_def Let_def)

text \<open>Without a question mark in the URL the extension is that of \<open>splitext\<close>.\<close>

lemma image_ext_no_query:
  "CHR ''?'' \<notin> set u \<Longrightarrow>
   image_ext seps u =
     (if snd (splitext seps u) = [] then ''.jpg'' else snd (splitext seps u))"
proof -
  assume "CHR ''?'' \<notin> set u"
  then have "CHR ''?'' \<notin> set (snd (splitext seps u))"
    by (auto simp: splitext_def Let_def dest: in_set_dropD)
  then have "takeWhile (\<lambda>c. c \<noteq> CHR ''?'') (snd (splitext seps u)) = snd (splitext seps u)"
    by (intro takeWhile_eq_all_conv [THEN iffD2]) auto
  then show ?thesis unfolding image_ext_def Let_def by (simp only: if_cancel)
qed

section \<open>Reading an entry\<close>

lemma has_key_read:
  "has_key p k \<Longrightarrow> subscript p k = Inr (value_at p k)"
  by (cases p) (auto simp: has_key_def value_at_def)

lemma has_first_read:
  "has_first v k \<Longrightarrow>
   and_then (first_item v) (\<lambda>item. subscript item k) = Inr (value_at (first_of v) k)"
  by (auto simp: has_first_def first_of_def value_at_def and_then_simps
      split: json.splits list.splits)

lemma has_first_key: "has_first (value_at p k) k' \<Longrightarrow> has_key p k"
  by (cases p) (auto simp: has_first_def has_key_def value_at_def split: option.splits)

lemma readable_image_url:
  assumes "readable_listing p"
  shows "image_url_of p = Inr (first_image_src p)"
proof -
  from assms have im: "subscript p ''images'' = Inr (value_at p ''images'')"
    by (simp add: readable_listing_def has_key_read)
  show ?thesis
  proof (cases "truthy (value_at p ''images'')")
    case False
    then show ?thesis by (simp add: image_url_of_def im and_then_simps first_image_src_def)
  next
    case True
    with assms have "has_first (value_at p ''images'') ''src''"
      by (simp add: readable_listing_def)
    from has_first_read [OF this] True show ?thesis
      by (simp add: image_url_of_def im and_then_simps first_image_src_def)
  qed
qed

lemma readable_price:
  assumes "readable_listing p"
  shows "first_price p = Inr (value_at (first_of (value_at p ''variants'')) ''price'')"
proof -
  from assms have hf: "has_first (value_at p ''variants'') ''price''"
    by (simp add: readable_listing_def)
  from has_first_key [OF hf] have "subscript p ''variants'' = Inr (value_at p ''variants'')"
    by (rule has_key_read)
  with has_first_read [OF hf] show ?thesis
    by (simp add: first_price_def and_then_simps)
qed

lemma readable_listing_record:
  assumes "readable_listing p"
  shows "listing_of_entry w p = Inr (normalized_listing w p)"
proof -
  from assms have "subscript p ''title'' = Inr (value_at p ''title'')"
      "subscript p ''handle'' = Inr (value_at p ''handle'')"
    by (simp_all add: readable_listing_def has_key_read)
  then show ?thesis
    by (simp add: listing_of_entry_def readable_image_url [OF assms] readable_price [OF assms]
          and_then_simps normalized_listing_def)
qed

lemma readable_product_record:
  assumes "readable_product p"
  shows "product_of_entry w p = Inr (normalized_product w p)"
proof -
  from assms have r: "readable_listing p" by (simp add: readable_product_def)
  from assms have "subscript p ''title'' = Inr (value_at p ''title'')"
      "subscript p ''handle'' = Inr (value_at p ''handle'')"
      "subscript p ''id'' = Inr (value_at p ''id'')"
    by (simp_all add: readable_product_def readable_listing_def has_key_read)
  then show ?thesis
    by (simp add: product_of_entry_def readable_image_url [OF r] readable_price [OF r]
          and_then_simps normalized_product_def)
qed

text \<open>Conversely, an entry that is converted without exception is a readable one.\<close>

lemma subscript_InrD: "subscript p k = Inr v \<Longrightarrow> has_key p k \<and> value_at p k = v"
  by (cases p) (auto simp: has_key_def value_at_def split: option.splits)

lemma first_read_InrD:
  "and_then (first_item v) (\<lambda>item. subscript item k) = Inr x \<Longrightarrow> has_first v k"
proof (cases v)
  case (JArr xs)
  assume r: "and_then (first_item v) (\<lambda>item. subscript item k) = Inr x"
  show ?thesis
  proof (cases xs)
    case Nil
    with r JArr show ?thesis by (simp add: and_then_simps)
  next
    case (Cons y ys)
    with r JArr have "subscript y k = Inr x" by (simp add: and_then_simps)
    then show ?thesis using JArr Cons
      by (cases y) (auto simp: has_first_def split: option.splits)
  qed
next
  case (JStr s)
  assume "and_then (first_item v) (\<lambda>item. subscript item k) = Inr x"
  with JStr show ?thesis by (cases s) (simp_all add: and_then_simps)
qed (simp_all add: and_then_simps)

lemma listing_record_readable:
  assumes "listing_of_entry w p = Inr r"
  shows "readable_listing p"
proof -
  from assms obtain img t pr h where img: "image_url_of p = Inr img"
      and t: "subscript p ''title'' = Inr t" and pr: "first_price p = Inr pr"
      and h: "subscript p ''handle'' = Inr h"
    by (auto simp: listing_of_entry_def and_then_def split: sum.splits)
  from img obtain images where im: "subscript p ''images'' = Inr images"
    by (auto simp: image_url_of_def and_then_def split: sum.splits)
  then have imv: "has_key p ''images''" "value_at p ''images'' = images"
    using subscript_InrD by blast+
  have "\<not> truthy images \<or> has_first images ''src''"
  proof (cases "truthy images")
    case True
    with img im have "and_then (first_item images) (\<lambda>item. subscript item ''src'') = Inr img"
      by (simp add: image_url_of_def and_then_simps)
    then show ?thesis using first_read_InrD by blast
  qed simp
  moreover from pr obtain vs where vs: "subscript p ''variants'' = Inr vs"
      and "and_then (first_item vs) (\<lambda>item. subscript item ''price'') = Inr pr"
    by (auto simp: first_price_def and_then_def split: sum.splits)
  then have "has_first (value_at p ''variants'') ''price''"
    using first_read_InrD subscript_InrD by blast
  ultimately show ?thesis
    using imv subscript_InrD [OF t] subscript_InrD [OF h]
    by (simp add: readable_listing_def)
qed

lemma product_record_readable:
  assumes "product_of_entry w p = Inr r"
  shows "readable_product p"
proof -
  from assms obtain img i t pr h where img: "image_url_of p = Inr img"
      and i: "subscript p ''id'' = Inr i"
      and t: "subscript p ''title'' = Inr t" and pr: "first_price p = Inr pr"
      and h: "subscript p ''handle'' = Inr h"
    by (auto simp: product_of_entry_def and_then_def split: sum.splits)
  then have "listing_of_entry w p =
      Inr \<lparr>l_title = t, l_price = pr, image_url = img,
           l_url = ''https://suta.in/products/'' @ format_value w h\<rparr>"
    by (simp add: listing_of_entry_def and_then_simps)
  from listing_record_readable [OF this] subscript_InrD [OF i] show ?thesis
    by (simp add: readable_product_def)
qed

section \<open>The fetch loop\<close>

lemma page_entries_SomeD:
  "page_entries response = Some ps \<Longrightarrow>
   \<exists>kvs. response = Inr (JObj kvs) \<and> map_of kvs ''products'' = Some (JArr ps)"
  by (auto simp: page_entries_def split: sum.splits json.splits option.splits)

lemma append_products_all:
  "\<forall>p\<in>set ps. conv p = Inr (g p) \<Longrightarrow>
   append_products conv ps acc = Inr (acc @ map g ps)"
  by (induction ps arbitrary: acc) simp_all

lemma fetch_page_good:
  assumes "page_entries response = Some ps" and "ps \<noteq> []"
    and "\<forall>p\<in>set ps. conv p = Inr (g p)"
  shows "fetch_page conv response acc = Next (acc @ map g ps)"
proof -
  from page_entries_SomeD [OF assms(1)] obtain kvs
    where "response = Inr (JObj kvs)" "map_of kvs ''products'' = Some (JArr ps)" by blast
  then show ?thesis
    using assms(2) append_products_all [OF assms(3), of acc]
    by (simp add: fetch_page_def and_then_simps)
qed

lemma fetch_page_empty:
  assumes "page_entries response = Some []"
  shows "fetch_page conv response acc = Break"
proof -
  from page_entries_SomeD [OF assms] obtain kvs
    where "response = Inr (JObj kvs)" "map_of kvs ''products'' = Some (JArr [])" by blast
  then show ?thesis by (simp add: fetch_page_def)
qed

lemma fetch_page_caught:
  "e = RequestException \<or> e = ValueError \<Longrightarrow> fetch_page conv (Inl e) acc = Break"
  by (auto simp: fetch_page_def)

text \<open>
  A body that is JSON but no object is not caught: \<^verbatim>\<open>data.get\<close> raises \<open>AttributeError\<close>
  after the \<^verbatim>\<open>try\<close> block.
\<close>

lemma fetch_page_body_not_an_object:
  "fetch_page conv (Inr (JArr xs)) acc = Raise AttributeError"
  by (simp add: fetch_page_def)

lemma fetch_loop_pages:
  assumes "\<forall>n. page \<le> n \<and> n < page + k \<longrightarrow>
             page_entries (page_response w n) = Some (E n) \<and> E n \<noteq> [] \<and>
             (\<forall>p\<in>set (E n). conv p = Inr (g p))"
    and "\<forall>acc'. fetch_page conv (page_response w (page + k)) acc' = Break"
  shows "fetch_loop conv w page acc requested =
           Some (requested @ [page..<page + k + 1],
                 Inr (acc @ concat (map (\<lambda>n. map g (E n)) [page..<page + k])))"
  using assms
proof (induction k arbitrary: page acc requested)
  case 0
  then show ?case by (subst fetch_loop.simps) simp
next
  case (Suc k)
  have here: "fetch_page conv (page_response w page) acc = Next (acc @ map g (E page))"
  proof -
    have "page \<le> page \<and> page < page + Suc k" by simp
    with Suc.prems(1) have "page_entries (page_response w page) = Some (E page) \<and> E page \<noteq> [] \<and>
             (\<forall>p\<in>set (E page). conv p = Inr (g p))" by blast
    then show ?thesis by (intro fetch_page_good) simp_all
  qed
  have rest: "fetch_loop conv w (page + 1) (acc @ map g (E page)) (requested @ [page]) =
          Some ((requested @ [page]) @ [page + 1..<page + 1 + k + 1],
                Inr ((acc @ map g (E page)) @ concat (map (\<lambda>n. map g (E n)) [page + 1..<page + 1 + k])))"
  proof (rule Suc.IH)
    show "\<forall>n. page + 1 \<le> n \<and> n < page + 1 + k \<longrightarrow>
             page_entries (page_response w n) = Some (E n) \<and> E n \<noteq> [] \<and>
             (\<forall>p\<in>set (E n). conv p = Inr (g p))"
    proof (intro allI impI)
      fix n assume "page + 1 \<le> n \<and> n < page + 1 + k"
      then have "page \<le> n \<and> n < page + Suc k" by simp
      with Suc.prems(1) show "page_entries (page_response w n) = Some (E n) \<and> E n \<noteq> [] \<and>
             (\<forall>p\<in>set (E n). conv p = Inr (g p))" by blast
    qed
    show "\<forall>acc'. fetch_page conv (page_response w (page + 1 + k)) acc' = Break"
      using Suc.prems(2) by simp
  qed
  have upt1: "[page..<page + Suc k + 1] = page # [page + 1..<page + 1 + k + 1]"
    by (simp add: upt_conv_Cons)
  have upt2: "[page..<page + Suc k] = page # [page + 1..<page + 1 + k]"
    by (simp add: upt_conv_Cons)
  show ?case
    by (subst fetch_loop.simps) (simp only: here step.case rest upt1 upt2, simp)
qed



text \<open>The sample entries and their records.\<close>

lemmas sample_entries = saree_def scarf_def stole_def kurta_def

lemmas sample_records =
  saree_product_def scarf_product_def stole_product_def kurta_product_def
  saree_listing_def scarf_listing_def stole_listing_def kurta_listing_def

lemma sample_readable:
  "readable_product saree" "readable_product scarf"
  "readable_product stole" "readable_product kurta"
  by (simp_all add: readable_product_def readable_listing_def has_key_def has_first_def
        value_at_def sample_entries)

lemma sample_products:
  "normalized_product w saree = saree_product" "normalized_product w scarf = scarf_product"
  "normalized_product w stole = stole_product" "normalized_product w kurta = kurta_product"
  by (simp_all add: normalized_product_def first_image_src_def value_at_def first_of_def
        format_value_def sample_entries sample_records)

lemma sample_listings:
  "normalized_listing w saree = saree_listing" "normalized_listing w scarf = scarf_listing"
  "normalized_listing w stole = stole_listing" "normalized_listing w kurta = kurta_listing"
  by (simp_all add: normalized_listing_def first_image_src_def value_at_def first_of_def
        format_value_def sample_entries sample_records)

lemma catalogue_pages:
  "page_entries (page_response catalogue n) =
     Some (if n = 1 then [saree, scarf] else if n = 2 then [stole, kurta] else [])"
  by (simp add: catalogue_def page_entries_def)

lemma broken_catalogue_pages:
  "n \<le> 2 \<Longrightarrow> page_entries (page_response broken_catalogue n) =
     Some (if n = 1 then [saree, scarf] else if n = 2 then [stole, kurta] else [])"
  "page_response broken_catalogue 3 = Inl RequestException"
  by (simp_all add: broken_catalogue_def catalogue_pages)

text \<open>
  An entry without variants on a page that is not empty: the conditions of C3 hold for
  \<open>k = 1\<close>, yet the loop ends at page 1 with \<open>IndexError\<close> and returns no records.
\<close>

theorem fetch_raises_on_entry_without_variant:
  "page_entries (page_response gift_shop 1) = Some [gift_box] \<and>
   page_entries (page_response gift_shop 2) = Some [] \<and>
   fetch_products gift_shop = Some ([1], Inl IndexError) \<and>
   scraper_fetch_products gift_shop = Some ([1], Inl IndexError)"
  by (simp add: fetch_products_def scraper_fetch_products_def fetch_loop.simps fetch_page_def
        product_of_entry_def listing_of_entry_def image_url_of_def first_price_def
        and_then_simps page_entries_def gift_shop_def gift_box_def)

text \<open>
  C3, for entries that can be read: when pages \<open>1\<close> to \<open>k\<close> hold entries (\<open>E n\<close> those of page
  \<open>n\<close>), each with the fields the script reads, and page \<open>k + 1\<close> is empty, the loop requests
  the pages \<open>1\<close> to \<open>k + 1\<close>, in that order, and returns the records of the entries of
  pages \<open>1\<close> to \<open>k\<close> as the specification describes them, page after page and entry after
  entry.
\<close>

theorem fetch_until_empty_page:
  assumes "\<forall>n. 1 \<le> n \<and> n \<le> k \<longrightarrow>
             page_entries (page_response w n) = Some (E n) \<and> E n \<noteq> []"
    and "page_entries (page_response w (k + 1)) = Some []"
  shows "((\<forall>n. 1 \<le> n \<and> n \<le> k \<longrightarrow> list_all readable_product (E n)) \<longrightarrow>
          fetch_products w =
            Some ([1..<k + 2],
                  Inr (concat (map (\<lambda>n. map (normalized_product w) (E n)) [1..<k + 1])))) \<and>
         ((\<forall>n. 1 \<le> n \<and> n \<le> k \<longrightarrow> list_all readable_listing (E n)) \<longrightarrow>
          scraper_fetch_products w =
            Some ([1..<k + 2],
                  Inr (concat (map (\<lambda>n. map (normalized_listing w) (E n)) [1..<k + 1]))))"
proof (intro conjI impI)
  assume ok: "\<forall>n. 1 \<le> n \<and> n \<le> k \<longrightarrow> list_all readable_product (E n)"
  have "fetch_loop (product_of_entry w) w 1 [] [] =
          Some ([] @ [1..<1 + k + 1],
                Inr ([] @ concat (map (\<lambda>n. map (normalized_product w) (E n)) [1..<1 + k])))"
  proof (rule fetch_loop_pages)
    show "\<forall>n. 1 \<le> n \<and> n < 1 + k \<longrightarrow>
            page_entries (page_response w n) = Some (E n) \<and> E n \<noteq> [] \<and>
            (\<forall>p\<in>set (E n). product_of_entry w p = Inr (normalized_product w p))"
      using assms(1) ok by (auto simp: list_all_iff readable_product_record)
    show "\<forall>acc'. fetch_page (product_of_entry w) (page_response w (1 + k)) acc' = Break"
      using assms(2) by (simp add: fetch_page_empty add.commute)
  qed
  then show "fetch_products w =
      Some ([1..<k + 2], Inr (concat (map (\<lambda>n. map (normalized_product w) (E n)) [1..<k + 1])))"
    by (simp add: fetch_products_def add.commute)
next
  assume ok: "\<forall>n. 1 \<le> n \<and> n \<le> k \<longrightarrow> list_all readable_listing (E n)"
  have "fetch_loop (listing_of_entry w) w 1 [] [] =
          Some ([] @ [1..<1 + k + 1],
                Inr ([] @ concat (map (\<lambda>n. map (normalized_listing w) (E n)) [1..<1 + k])))"
  proof (rule fetch_loop_pages)
    show "\<forall>n. 1 \<le> n \<and> n < 1 + k \<longrightarrow>
            page_entries (page_response w n) = Some (E n) \<and> E n \<noteq> [] \<and>
            (\<forall>p\<in>set (E n). listing_of_entry w p = Inr (normalized_listing w p))"
      using assms(1) ok by (auto simp: list_all_iff readable_listing_record)
    show "\<forall>acc'. fetch_page (listing_of_entry w) (page_response w (1 + k)) acc' = Break"
      using assms(2) by (simp add: fetch_page_empty add.commute)
  qed
  then show "scraper_fetch_products w =
      Some ([1..<k + 2], Inr (concat (map (\<lambda>n. map (normalized_listing w) (E n)) [1..<k + 1])))"
    by (simp add: scraper_fetch_products_def add.commute)
qed

theorem fetch_until_empty_page_witness:
  "fetch_products catalogue =
     Some ([1, 2, 3], Inr [saree_product, scarf_product, stole_product, kurta_product]) \<and>
   scraper_fetch_products catalogue =
     Some ([1, 2, 3], Inr [saree_listing, scarf_listing, stole_listing, kurta_listing])"
proof -
  let ?E = "\<lambda>n::nat. if n = 1 then [saree, scarf] else [stole, kurta]"
  have pages: "\<forall>n. 1 \<le> n \<and> n \<le> 2 \<longrightarrow>
      page_entries (page_response catalogue n) = Some (?E n) \<and> ?E n \<noteq> []"
    by (auto simp: catalogue_pages)
  have last: "page_entries (page_response catalogue (2 + 1)) = Some []"
    by (simp add: catalogue_pages)
  have products: "\<forall>n. 1 \<le> n \<and> n \<le> 2 \<longrightarrow> list_all readable_product (?E n)"
    by (simp add: sample_readable)
  have listings: "\<forall>n. 1 \<le> n \<and> n \<le> 2 \<longrightarrow> list_all readable_listing (?E n)"
    using sample_readable by (simp add: readable_product_def)
  have upt: "[1..<2 + 2] = [1, 2, 3::nat]" "[1..<2 + 1] = [1, 2::nat]"
    by (simp_all add: upt_conv_Cons)
  note run = fetch_until_empty_page [where w = catalogue and k = 2 and E = ?E, OF pages last]
  have "fetch_products catalogue =
      Some ([1..<2 + 2],
            Inr (concat (map (\<lambda>n. map (normalized_product catalogue) (?E n)) [1..<2 + 1])))"
    using run products by (rule conjunct1 [THEN mp])
  moreover have "scraper_fetch_products catalogue =
      Some ([1..<2 + 2],
            Inr (concat (map (\<lambda>n. map (normalized_listing catalogue) (?E n)) [1..<2 + 1])))"
    using run listings by (rule conjunct2 [THEN mp])
  ultimately show ?thesis
    by (simp only: upt) (simp add: sample_products sample_listings)
qed

text \<open>
  A body that is JSON but no object, and a body that is nested too deeply for the
  parser: the exception is none of those the handler catches, and it leaves the function
  at page 1 instead of the empty list of records.
\<close>

theorem fetch_raises_on_other_bodies:
  "fetch_products array_shop = Some ([1], Inl AttributeError) \<and>
   scraper_fetch_products array_shop = Some ([1], Inl AttributeError) \<and>
   fetch_products deep_shop = Some ([1], Inl RecursionError) \<and>
   scraper_fetch_products deep_shop = Some ([1], Inl RecursionError)"
  by (simp add: fetch_products_def scraper_fetch_products_def fetch_loop.simps fetch_page_def
        array_shop_def deep_shop_def)

text \<open>
  C4, for the exceptions that the handler names: when the request for page \<open>j\<close> raises a
  \<open>RequestException\<close> (a network error, a timeout, an error status after the retries) or a
  \<open>ValueError\<close> (a body that is not JSON), and the pages before it hold entries that can be
  read, the loop ends there and returns the records of pages \<open>1\<close> to \<open>j - 1\<close>; no exception
  leaves the function.
\<close>

theorem fetch_error_keeps_earlier_pages:
  assumes "\<forall>n. 1 \<le> n \<and> n < j \<longrightarrow>
             page_entries (page_response w n) = Some (E n) \<and> E n \<noteq> []"
    and "1 \<le> j" and "page_response w j = Inl e" and "e = RequestException \<or> e = ValueError"
  shows "((\<forall>n. 1 \<le> n \<and> n < j \<longrightarrow> list_all readable_product (E n)) \<longrightarrow>
          fetch_products w =
            Some ([1..<j + 1],
                  Inr (concat (map (\<lambda>n. map (normalized_product w) (E n)) [1..<j])))) \<and>
         ((\<forall>n. 1 \<le> n \<and> n < j \<longrightarrow> list_all readable_listing (E n)) \<longrightarrow>
          scraper_fetch_products w =
            Some ([1..<j + 1],
                  Inr (concat (map (\<lambda>n. map (normalized_listing w) (E n)) [1..<j]))))"
proof -
  obtain k where j: "j = 1 + k" using assms(2) by (metis le_Suc_ex)
  have stop: "\<forall>acc'. fetch_page conv (page_response w (1 + k)) acc' = Break"
    for conv :: "json \<Rightarrow> py_error + 'r"
    using assms(3,4) fetch_page_caught [of e conv] by (simp add: j)
  have run: "fetch_loop conv w 1 [] [] =
          Some ([] @ [1..<1 + k + 1], Inr ([] @ concat (map (\<lambda>n. map f (E n)) [1..<1 + k])))"
    if "\<forall>n. 1 \<le> n \<and> n < j \<longrightarrow> (\<forall>p\<in>set (E n). conv p = Inr (f p))"
    for conv :: "json \<Rightarrow> py_error + 'r" and f
  proof (rule fetch_loop_pages [OF _ stop])
    show "\<forall>n. 1 \<le> n \<and> n < 1 + k \<longrightarrow>
        page_entries (page_response w n) = Some (E n) \<and> E n \<noteq> [] \<and>
        (\<forall>p\<in>set (E n). conv p = Inr (f p))"
      using assms(1) that by (simp add: j)
  qed
  show ?thesis
  proof (intro conjI impI)
    assume "\<forall>n. 1 \<le> n \<and> n < j \<longrightarrow> list_all readable_product (E n)"
    then have "\<forall>n. 1 \<le> n \<and> n < j \<longrightarrow>
        (\<forall>p\<in>set (E n). product_of_entry w p = Inr (normalized_product w p))"
      by (auto simp: list_all_iff readable_product_record)
    from run [OF this] show "fetch_products w =
        Some ([1..<j + 1], Inr (concat (map (\<lambda>n. map (normalized_product w) (E n)) [1..<j])))"
      by (simp add: fetch_products_def j add.commute)
  next
    assume "\<forall>n. 1 \<le> n \<and> n < j \<longrightarrow> list_all readable_listing (E n)"
    then have "\<forall>n. 1 \<le> n \<and> n < j \<longrightarrow>
        (\<forall>p\<in>set (E n). listing_of_entry w p = Inr (normalized_listing w p))"
      by (auto simp: list_all_iff readable_listing_record)
    from run [OF this] show "scraper_fetch_products w =
        Some ([1..<j + 1], Inr (concat (map (\<lambda>n. map (normalized_listing w) (E n)) [1..<j])))"
      by (simp add: scraper_fetch_products_def j add.commute)
  qed
qed

theorem fetch_error_keeps_earlier_pages_witness:
  "fetch_products broken_catalogue =
     Some ([1, 2, 3], Inr [saree_product, scarf_product, stole_product, kurta_product]) \<and>
   scraper_fetch_products broken_catalogue =
     Some ([1, 2, 3], Inr [saree_listing, scarf_listing, stole_listing, kurta_listing])"
proof -
  let ?E = "\<lambda>n::nat. if n = 1 then [saree, scarf] else [stole, kurta]"
  have pages: "\<forall>n. 1 \<le> n \<and> n < 3 \<longrightarrow>
      page_entries (page_response broken_catalogue n) = Some (?E n) \<and> ?E n \<noteq> []"
    by (auto simp: broken_catalogue_pages)
  have three: "(1::nat) \<le> 3" by simp
  have err: "page_response broken_catalogue 3 = Inl RequestException"
    by (rule broken_catalogue_pages)
  have caught: "RequestException = RequestException \<or> RequestException = ValueError" by simp
  have products: "\<forall>n. 1 \<le> n \<and> n < 3 \<longrightarrow> list_all readable_product (?E n)"
    by (simp add: sample_readable)
  have listings: "\<forall>n. 1 \<le> n \<and> n < 3 \<longrightarrow> list_all readable_listing (?E n)"
    using sample_readable by (simp add: readable_product_def)
  have upt: "[1..<3 + 1] = [1, 2, 3::nat]" "[1..<3] = [1, 2::nat]"
    by (simp_all add: upt_conv_Cons)
  note run = fetch_error_keeps_earlier_pages [where w = broken_catalogue and j = 3
      and E = ?E and e = RequestException, OF pages three err caught]
  have "fetch_products broken_catalogue =
      Some ([1..<3 + 1],
            Inr (concat (map (\<lambda>n. map (normalized_product broken_catalogue) (?E n)) [1..<3])))"
    using run products by (rule conjunct1 [THEN mp])
  moreover have "scraper_fetch_products broken_catalogue =
      Some ([1..<3 + 1],
            Inr (concat (map (\<lambda>n. map (normalized_listing broken_catalogue) (?E n)) [1..<3])))"
    using run listings by (rule conjunct2 [THEN mp])
  ultimately show ?thesis
    by (simp only: upt) (simp add: sample_products sample_listings)
qed

section \<open>Normalising an entry\<close>

text \<open>
  An entry whose \<open>images\<close> list is empty and whose \<open>variants\<close> list is empty too: no record
  is produced, the price cannot be read and \<open>IndexError\<close> is raised, in either script.
\<close>

theorem empty_images_without_variant_raises:
  "subscript gift_box ''images'' = Inr (JArr []) \<and>
   product_of_entry shop gift_box = Inl IndexError \<and>
   listing_of_entry shop gift_box = Inl IndexError"
  by (simp add: product_of_entry_def listing_of_entry_def image_url_of_def first_price_def
        and_then_simps gift_box_def)

text \<open>
  C7, for an entry whose other fields can be read: when the \<open>images\<close> list is empty and the
  title, the price of the first variant and the handle are there, the image URL is
  computed without error and is \<open>None\<close>, and the entry gives the record with these fields
  and no image; in \<^verbatim>\<open>suta_scraper.py\<close> the \<open>id\<close> has to be there as well.
\<close>

theorem empty_images_no_url:
  assumes "subscript p ''images'' = Inr (JArr [])"
    and "subscript p ''title'' = Inr t" and "first_price p = Inr pr"
    and "subscript p ''handle'' = Inr h"
  shows "image_url_of p = Inr JNull \<and>
         listing_of_entry w p =
           Inr \<lparr>l_title = t, l_price = pr, image_url = JNull,
                l_url = ''https://suta.in/products/'' @ format_value w h\<rparr> \<and>
         (\<forall>i. subscript p ''id'' = Inr i \<longrightarrow>
            product_of_entry w p =
              Inr \<lparr>pid = i, title = t, price = pr, image_src = JNull,
                   url = ''https://suta.in/products/'' @ format_value w h\<rparr>)"
proof -
  have "image_url_of p = Inr JNull"
    using assms(1) by (simp add: image_url_of_def and_then_simps)
  then show ?thesis
    using assms by (simp add: product_of_entry_def listing_of_entry_def and_then_simps)
qed

theorem empty_images_no_url_witness:
  "image_url_of scarf = Inr JNull \<and>
   listing_of_entry shop scarf = Inr scarf_listing \<and>
   product_of_entry shop scarf = Inr scarf_product"
proof -
  have reads: "subscript scarf ''images'' = Inr (JArr [])"
      "subscript scarf ''title'' = Inr (JStr ''Scarf'')"
      "first_price scarf = Inr (JStr ''5.00'')"
      "subscript scarf ''handle'' = Inr (JStr ''scarf'')"
    by (simp_all add: scarf_def first_price_def and_then_simps)
  have ident: "subscript scarf ''id'' = Inr (JInt 2)" by (simp add: scarf_def)
  from empty_images_no_url [OF reads, of shop] ident show ?thesis
    by (simp add: scarf_listing_def scarf_product_def format_value_def)
qed

section \<open>The report\<close>

text \<open>
  C6: the report holds one block per product, in the order of the list, and the image
  line of each block is the case the specification names. The identifier of a product
  with an image is looked up in a dictionary, so it has to be hashable; it always is when
  \<open>save_products\<close> gets as far as the report (\<open>download_all_keys_hashable\<close>).
\<close>

theorem report_one_block_per_product:
  assumes "\<forall>p\<in>set products. truthy (image_src p) \<longrightarrow> key_of (pid p) \<noteq> None"
  shows "write_products download_results products [] =
           Inr (concat (map (report_block download_results) products))"
  using write_products_acc [OF assms, of download_results "[]"] by simp

theorem report_one_block_per_product_witness:
  "write_products [KNum 1 \<mapsto> (JStr ''images/product_1.5'', True)]
     [saree_product, saree_product\<lparr>pid := JInt 2\<rparr>, saree_product\<lparr>image_src := JNull\<rparr>] [] =
   Inr [Name (JStr ''Saree''), Price (JStr ''10.00''), Url ''https://suta.in/products/saree'',
          ImageSaved (JStr ''images/product_1.5''), Separator,
        Name (JStr ''Saree''), Price (JStr ''10.00''), Url ''https://suta.in/products/saree'',
          ImageFailed, Separator,
        Name (JStr ''Saree''), Price (JStr ''10.00''), Url ''https://suta.in/products/saree'',
          NoImage, Separator]"
  using report_one_block_per_product [of
      "[saree_product, saree_product\<lparr>pid := JInt 2\<rparr>, saree_product\<lparr>image_src := JNull\<rparr>]"
      "[KNum 1 \<mapsto> (JStr ''images/product_1.5'', True)]"]
  by (simp add: saree_product_def report_block_def image_case_def)

text \<open>
  C10: a product with an image whose identifier is a key that the mapping does not hold
  gets the line of a failed download: the lookup falls back on \<^verbatim>\<open>(None, False)\<close>, nothing is
  raised, and the report is complete, with the blocks of the products before and after
  it around the block of this one.
\<close>

theorem missing_outcome_is_failure:
  assumes "truthy (image_src p)" and "key_of (pid p) = Some k" and "download_results k = None"
    and "\<forall>q\<in>set (before @ after). truthy (image_src q) \<longrightarrow> key_of (pid q) \<noteq> None"
  shows "write_products download_results (before @ p # after) [] =
           Inr (concat (map (report_block download_results) before) @
                [Name (title p), Price (price p), Url (url p), ImageFailed, Separator] @
                concat (map (report_block download_results) after))"
proof -
  have "\<forall>q\<in>set (before @ p # after). truthy (image_src q) \<longrightarrow> key_of (pid q) \<noteq> None"
    using assms(2,4) by auto
  from write_products_acc [OF this, of download_results "[]"]
  have "write_products download_results (before @ p # after) [] =
          Inr (concat (map (report_block download_results) (before @ p # after)))" by simp
  moreover have "report_block download_results p =
          [Name (title p), Price (price p), Url (url p), ImageFailed, Separator]"
    using assms(1-3) by (simp add: report_block_def image_case_def)
  ultimately show ?thesis by simp
qed

theorem missing_outcome_is_failure_witness:
  "write_products [KNum 1 \<mapsto> (JStr ''images/product_1.5'', True)]
     [saree_product, stole_product, stole_product\<lparr>pid := JStr ''x''\<rparr>] [] =
   Inr [Name (JStr ''Saree''), Price (JStr ''10.00''), Url ''https://suta.in/products/saree'',
          ImageSaved (JStr ''images/product_1.5''), Separator,
        Name (JStr ''Stole''), Price (JStr ''7.50''), Url ''https://suta.in/products/stole'',
          ImageFailed, Separator,
        Name (JStr ''Stole''), Price (JStr ''7.50''), Url ''https://suta.in/products/stole'',
          ImageFailed, Separator]"
proof -
  let ?dr = "[KNum 1 \<mapsto> (JStr ''images/product_1.5'', True)]"
  have p: "truthy (image_src stole_product)" "key_of (pid stole_product) = Some (KNum 3)"
      "?dr (KNum 3) = None"
    by (simp_all add: stole_product_def)
  have others: "\<forall>q\<in>set ([saree_product] @ [stole_product\<lparr>pid := JStr ''x''\<rparr>]).
      truthy (image_src q) \<longrightarrow> key_of (pid q) \<noteq> None"
    by (simp add: saree_product_def stole_product_def)
  from missing_outcome_is_failure [where p = stole_product and k = "KNum 3"
      and download_results = ?dr and before = "[saree_product]"
      and after = "[stole_product\<lparr>pid := JStr ''x''\<rparr>]", OF p others]
  show ?thesis
    by (simp add: report_block_def image_case_def saree_product_def stole_product_def)
qed

section \<open>The batch of downloads\<close>

lemma collect_dom:
  assumes "\<forall>f\<in>set fs. key_of (fst (snd f)) \<noteq> None"
  shows "\<exists>dr'. collect fs dr = Inr dr' \<and>
               dom dr' = dom dr \<union> {k. Some k \<in> (\<lambda>f. key_of (fst (snd f))) ` set fs}"
  using assms
proof (induction fs arbitrary: dr)
  case Nil
  then show ?case by simp
next
  case (Cons f fs)
  obtain future ident src where f: "f = (future, ident, src)" by (cases f)
  with Cons.prems obtain k where k: "key_of ident = Some k" by auto
  have rest: "\<exists>dr'. collect fs (dr(k \<mapsto> v)) = Inr dr' \<and>
               dom dr' = dom (dr(k \<mapsto> v)) \<union> {k. Some k \<in> (\<lambda>f. key_of (fst (snd f))) ` set fs}" for v
    using Cons.prems by (intro Cons.IH) simp
  have step: "\<exists>v. collect (f # fs) dr = collect fs (dr(k \<mapsto> v))"
  proof (cases future)
    case (Inl e)
    then have "collect (f # fs) dr = collect fs (dr(k \<mapsto> (src, False)))"
      by (simp add: f k setitem_def and_then_simps)
    then show ?thesis ..
  next
    case (Inr pair)
    then have "collect (f # fs) dr = collect fs (dr(k \<mapsto> pair))"
      by (cases pair) (simp add: f k setitem_def and_then_simps)
    then show ?thesis ..
  qed
  then obtain v where v: "collect (f # fs) dr = collect fs (dr(k \<mapsto> v))" by blast
  from rest [of v] obtain dr' where dr': "collect fs (dr(k \<mapsto> v)) = Inr dr'"
    "dom dr' = dom (dr(k \<mapsto> v)) \<union> {k. Some k \<in> (\<lambda>f. key_of (fst (snd f))) ` set fs}" by blast
  have "dom dr' = dom dr \<union> {k. Some k \<in> (\<lambda>f. key_of (fst (snd f))) ` set (f # fs)}"
    unfolding dr'(2) by (auto simp: f k)
  with v dr'(1) show ?case by simp
qed

lemma as_completed_all:
  assumes "\<forall>i<length fs. finishes w i"
  shows "snd (as_completed w fs) = False" and "set (fst (as_completed w fs)) = set fs"
proof -
  have all: "filter (finishes w) [0..<length fs] = [0..<length fs]"
    using assms by (intro filter_True) simp
  show "snd (as_completed w fs) = False"
    using assms by (simp add: as_completed_def list_all_iff)
  have "set (fst (as_completed w fs)) = (\<lambda>i. fs ! i) ` {0..<length fs}"
    by (simp add: as_completed_def all)
  also have "\<dots> = set fs"
    by (auto simp: set_conv_nth)
  finally show "set (fst (as_completed w fs)) = set fs" .
qed

lemma submit_all_keys:
  "(\<lambda>f. key_of (fst (snd f))) ` set (submit_all w tasks) = (\<lambda>t. key_of (fst t)) ` set tasks"
proof -
  have "map (\<lambda>f. key_of (fst (snd f))) (submit_all w tasks) = map (\<lambda>t. key_of (fst t)) tasks"
    by (simp add: submit_all_def split_beta)
  then have "set (map (\<lambda>f. key_of (fst (snd f))) (submit_all w tasks)) =
             set (map (\<lambda>t. key_of (fst t)) tasks)" by simp
  then show ?thesis by (simp only: set_map)
qed

lemma download_all_complete:
  assumes "\<forall>i<length tasks. finishes w i" and "\<forall>t\<in>set tasks. key_of (fst t) \<noteq> None"
  shows "\<exists>dr. download_all w tasks = Inr dr \<and>
              dom dr = {k. Some k \<in> (\<lambda>t. key_of (fst t)) ` set tasks}"
proof -
  let ?fs = "submit_all w tasks"
  have len: "length ?fs = length tasks" by (simp add: submit_all_def)
  obtain yielded timed_out where ac: "as_completed w ?fs = (yielded, timed_out)"
    by (cases "as_completed w ?fs")
  from as_completed_all [of ?fs w] assms(1) len ac
  have t: "timed_out = False" and y: "set yielded = set ?fs" by simp_all
  have keys: "(\<lambda>f. key_of (fst (snd f))) ` set yielded = (\<lambda>t. key_of (fst t)) ` set tasks"
    by (simp only: y submit_all_keys)
  have "None \<notin> (\<lambda>t. key_of (fst t)) ` set tasks"
    using assms(2) by (auto simp: image_iff)
  with keys have "None \<notin> (\<lambda>f. key_of (fst (snd f))) ` set yielded"
    by simp
  then have "\<forall>f\<in>set yielded. key_of (fst (snd f)) \<noteq> None"
    by (metis imageI)
  from collect_dom [OF this, of Map.empty] obtain dr
    where dr: "collect yielded Map.empty = Inr dr"
      "dom dr = dom (Map.empty :: pykey \<rightharpoonup> json \<times> bool) \<union>
                {k. Some k \<in> (\<lambda>f. key_of (fst (snd f))) ` set yielded}" by blast
  from dr(2) have "dom dr = {k. Some k \<in> (\<lambda>t. key_of (fst t)) ` set tasks}"
    by (simp only: keys dom_empty Un_empty_left)
  with dr(1) t ac show ?thesis
    by (simp add: download_all_def and_then_simps)
qed

lemma download_all_one_key_per_task:
  assumes "\<forall>i<length tasks. finishes w i"
    and "map (\<lambda>t. key_of (fst t)) tasks = map Some ks" and "distinct ks"
  shows "\<exists>dr. download_all w tasks = Inr dr \<and> dom dr = set ks \<and> card (dom dr) = length tasks"
proof -
  have img: "(\<lambda>t. key_of (fst t)) ` set tasks = Some ` set ks"
  proof -
    have "set (map (\<lambda>t. key_of (fst t)) tasks) = set (map Some ks)"
      by (simp only: assms(2))
    then show ?thesis by (simp only: set_map)
  qed
  then have "\<forall>t\<in>set tasks. key_of (fst t) \<noteq> None" by (auto simp: image_iff)
  from download_all_complete [OF assms(1) this] obtain dr
    where dr: "download_all w tasks = Inr dr"
      "dom dr = {k. Some k \<in> (\<lambda>t. key_of (fst t)) ` set tasks}" by blast
  have "dom dr = set ks" unfolding dr(2) img by auto
  moreover have "length ks = length tasks"
    using assms(2) by (metis length_map)
  ultimately show ?thesis using dr(1) assms(3) by (simp add: distinct_card)
qed


lemma image_tasks_keys:
  "t \<in> set (image_tasks w ps) \<Longrightarrow> \<exists>p\<in>set ps. truthy (image_src p) \<and> fst t = pid p"
  by (induction ps) (auto split: if_splits)

text \<open>
  Conversely, when the download stage hands a mapping to the report, every product with
  an image has a hashable identifier: an unhashable one raises in the loop.
\<close>

lemma collect_keys_hashable:
  "collect fs dr = Inr dr' \<Longrightarrow> \<forall>f\<in>set fs. key_of (fst (snd f)) \<noteq> None"
proof (induction fs arbitrary: dr)
  case Nil
  then show ?case by simp
next
  case (Cons f fs)
  obtain future ident src where f: "f = (future, ident, src)" by (cases f)
  show ?case
  proof (cases "key_of ident")
    case None
    then have "collect (f # fs) dr = Inl TypeError"
      by (cases future) (auto simp: f setitem_def and_then_simps split: prod.splits)
    with Cons.prems show ?thesis by simp
  next
    case (Some k)
    have "\<exists>v. collect (f # fs) dr = collect fs (dr(k \<mapsto> v))"
    proof (cases future)
      case (Inl e)
      then have "collect (f # fs) dr = collect fs (dr(k \<mapsto> (src, False)))"
        by (simp add: f Some setitem_def and_then_simps)
      then show ?thesis ..
    next
      case (Inr pair)
      then have "collect (f # fs) dr = collect fs (dr(k \<mapsto> pair))"
        by (cases pair) (simp add: f Some setitem_def and_then_simps)
      then show ?thesis ..
    qed
    then obtain v where "collect fs (dr(k \<mapsto> v)) = Inr dr'" using Cons.prems by auto
    from Cons.IH [OF this] show ?thesis by (simp add: f Some)
  qed
qed

lemma image_tasks_member:
  "p \<in> set ps \<Longrightarrow> truthy (image_src p) \<Longrightarrow> pid p \<in> fst ` set (image_tasks w ps)"
  by (induction ps) (auto simp: image_iff)

lemma download_all_keys_hashable:
  assumes "download_all w (image_tasks w products) = Inr dr"
  shows "\<forall>p\<in>set products. truthy (image_src p) \<longrightarrow> key_of (pid p) \<noteq> None"
proof (intro ballI impI)
  fix p assume p: "p \<in> set products" "truthy (image_src p)"
  let ?fs = "submit_all w (image_tasks w products)"
  obtain yielded timed_out where ac: "as_completed w ?fs = (yielded, timed_out)"
    by (cases "as_completed w ?fs")
  with assms have c: "collect yielded Map.empty = Inr dr" and t: "\<not> timed_out"
    by (auto simp: download_all_def and_then_def split: sum.splits if_splits)
  from t ac have "\<forall>i<length ?fs. finishes w i"
    by (auto simp: as_completed_def list_all_iff)
  from as_completed_all(2) [OF this] ac have y: "set yielded = set ?fs" by simp
  from image_tasks_member [OF p, of w]
  have "key_of (pid p) \<in> (\<lambda>t. key_of (fst t)) ` set (image_tasks w products)"
    by (metis (no_types, lifting) image_iff)
  then have "key_of (pid p) \<in> (\<lambda>f. key_of (fst (snd f))) ` set yielded"
    by (simp only: y submit_all_keys)
  with collect_keys_hashable [OF c] show "key_of (pid p) \<noteq> None"
    by (auto simp: image_iff)
qed





text \<open>
  C1: with one product that has an image, and a download that is still running when the
  60 second wait expires, the iterator of \<^verbatim>\<open>as_completed\<close> raises a timeout error that nothing
  catches: the download stage returns no mapping at all, \<open>save_products\<close> and the script
  end with the exception. (When every download finishes in time and the identifiers are
  distinct keys, the mapping has one key per task: \<open>download_all_one_key_per_task\<close>.)
\<close>

theorem timeout_leaves_no_mapping:
  "download_all (shop\<lparr>finishes := (\<lambda>i. False)\<rparr>)
     (image_tasks (shop\<lparr>finishes := (\<lambda>i. False)\<rparr>) [saree_product]) = Inl FuturesTimeout \<and>
   save_products (shop\<lparr>finishes := (\<lambda>i. False)\<rparr>) [saree_product] = Inl FuturesTimeout \<and>
   main (shop\<lparr>finishes := (\<lambda>i. False)\<rparr>) = Some (Inl FuturesTimeout)"
  by (simp add: main_def fetch_products_def fetch_loop.simps fetch_page_def product_of_entry_def
        image_url_of_def first_price_def format_value_def save_products_def download_all_def
        as_completed_def submit_all_def and_then_simps shop_def saree_def saree_product_def)

section \<open>The whole run\<close>




text \<open>The line that a looked-up outcome gives, for a download that failed or succeeded.\<close>

lemma failed_download_line:
  assumes "truthy (image_src p)"
    and "Option.bind (key_of (pid p)) dr = Some (snd (download_image w src path))"
    and "download_attempt w src path = Inl e"
  shows "image_case dr p = ImageFailed"
  using assms by (simp add: image_case_def download_image_def)

lemma finished_download_line:
  assumes "truthy (image_src p)"
    and "Option.bind (key_of (pid p)) dr = Some (snd (download_image w src path))"
    and "download_attempt w src path = Inr filename"
  shows "image_case dr p = ImageSaved (JStr filename)"
  using assms by (simp add: image_case_def download_image_def)






text \<open>
  A title that UTF-8 cannot encode: the write of its line raises outside every handler and
  the exception ends either script.
\<close>

lemma unwritable_line_ends_run:
  "main (catalogue\<lparr>write_error :=
           (\<lambda>l. if l = Name (JStr ''Scarf'') then Some UnicodeEncodeError else None)\<rparr>) =
     Some (Inl UnicodeEncodeError)"
  "scraper_main (catalogue\<lparr>write_error :=
           (\<lambda>l. if l = Name (JStr ''Scarf'') then Some UnicodeEncodeError else None)\<rparr>) =
     Some (Inl UnicodeEncodeError)"
  by code_simp+



end
